theory Spec2Isabelle
  imports Main "HOL-Library.Char_ord"
begin

section \<open>Strings\<close>

text \<open>
  Python strings are modelled as \<^typ>\<open>string\<close>, one \<^typ>\<open>char\<close> per character: the model
  holds the characters with a code point below 256. \<open>str.lower\<close> and \<open>str.strip\<close> stay within
  these characters and are written out for all of them: \<open>str.lower\<close> changes the letters
  \<open>A\<close>..\<open>Z\<close> and the letters \<open>0xC0\<close>..\<open>0xDE\<close> other than the multiplication sign \<open>0xD7\<close>.
\<close>

definition lower_char :: "char \<Rightarrow> char" where
  "lower_char c =
     (if (65 \<le> (of_char c :: nat) \<and> (of_char c :: nat) \<le> 90) \<or>
         (192 \<le> (of_char c :: nat) \<and> (of_char c :: nat) \<le> 222 \<and> (of_char c :: nat) \<noteq> 215)
      then char_of (of_char c + (32 :: nat)) else c)"

definition lower :: "string \<Rightarrow> string" where
  "lower s = map lower_char s"

text \<open>
  \<open>str.upper\<close> does not stay within these characters: the uppercase of the sharp s
  (\<open>0xDF\<close>) is the two letters \<open>SS\<close>, and the uppercase of the micro sign (\<open>0xB5\<close>) and of
  the y with diaeresis (\<open>0xFF\<close>) has a code point above 255. \<open>upper\<close> is \<open>None\<close> on a string
  whose uppercase the model cannot hold. The other letters, \<open>a\<close>..\<open>z\<close> and \<open>0xE0\<close>..\<open>0xFE\<close>
  without the division sign \<open>0xF7\<close>, move down by 32.
\<close>

definition upper_chars :: "char \<Rightarrow> string option" where
  "upper_chars c =
     (if (of_char c :: nat) = 223 then Some ''SS''
      else if (of_char c :: nat) = 181 \<or> (of_char c :: nat) = 255 then None
      else if (97 \<le> (of_char c :: nat) \<and> (of_char c :: nat) \<le> 122) \<or>
              (224 \<le> (of_char c :: nat) \<and> (of_char c :: nat) \<le> 254 \<and>
               (of_char c :: nat) \<noteq> 247)
      then Some [char_of (of_char c - (32 :: nat))]
      else Some [c])"

definition upper :: "string \<Rightarrow> string option" where
  "upper s = map_option concat (those (map upper_chars s))"

text \<open>\<open>str.isascii\<close>: every character has a code point below 128.\<close>

definition isascii :: "string \<Rightarrow> bool" where
  "isascii s = list_all (\<lambda>c. (of_char c :: nat) < 128) s"

text \<open>The uppercase of one of the letters \<open>a\<close>..\<open>z\<close>; any other character is left as it
  is.\<close>

definition upper_char :: "char \<Rightarrow> char" where
  "upper_char c =
     (if CHR ''a'' \<le> c \<and> c \<le> CHR ''z'' then char_of (of_char c - (32 :: nat)) else c)"

text \<open>The characters \<open>str.strip()\<close> removes: tab, line feed, vertical tab, form feed,
  carriage return, the separators \<open>0x1c\<close>..\<open>0x1f\<close>, the space, the next-line character
  \<open>0x85\<close> and the no-break space \<open>0xa0\<close>.\<close>

definition isspace :: "char \<Rightarrow> bool" where
  "isspace c = (of_char c \<in> {9, 10, 11, 12, 13, 28, 29, 30, 31, 32, 133, 160 :: nat})"

definition strip :: "string \<Rightarrow> string" where
  "strip s = rev (dropWhile isspace (rev (dropWhile isspace s)))"

text \<open>\<open>re.sub(r'[_ ]+', ' ', title)\<close>: every maximal run of underscores and spaces
  becomes one space.\<close>

definition is_sep :: "char \<Rightarrow> bool" where
  "is_sep c = (c = CHR ''_'' \<or> c = CHR '' '')"

function sub_runs :: "string \<Rightarrow> string" where
  "sub_runs [] = []"
| "sub_runs (c # cs) =
     (if is_sep c then CHR '' '' # sub_runs (dropWhile is_sep cs) else c # sub_runs cs)"
  by pat_completeness auto
termination
  by (relation "measure length") (auto simp: length_dropWhile_le less_Suc_eq_le)

text \<open>\<open>title.partition(':')\<close>: the text before the first colon, the colon, the text
  after it; the whole string and two empty strings when there is no colon.\<close>

definition partition_colon :: "string \<Rightarrow> string \<times> string \<times> string" where
  "partition_colon title =
     (if CHR '':'' \<in> set title
      then (takeWhile (\<lambda>c. c \<noteq> CHR '':'') title, '':'',
            tl (dropWhile (\<lambda>c. c \<noteq> CHR '':'') title))
      else (title, [], []))"



section \<open>Title equivalence\<close>

text \<open>
  Modelled from the spec: \<open>first_upper\<close> of \<open>pywikibot.tools\<close> is not under \<open>src/\<close>. The spec
  says that it uppercases the first letter of the name and leaves the rest of the string
  untouched; the empty string stays empty.
\<close>

definition first_upper :: "string \<Rightarrow> string" where
  "first_upper s = (case s of [] \<Rightarrow> [] | c # cs \<Rightarrow> upper_char c # cs)"

text \<open>
  Modelled from the spec: \<open>Namespace\<close> and \<open>NamespacesDict\<close> (\<open>pywikibot.site._namespace\<close>)
  are not under \<open>src/\<close>; \<open>sametitle\<close> takes the site's namespaces as a parameter. The spec
  compares namespaces by their identifiers, so a \<open>Namespace\<close> object is represented by its
  identifier, the key under which the dictionary stores it: two namespaces are equal
  when their identifiers are, and a namespace object is never falsy.
  \<open>lookup_name\<close> is the dictionary's method of that name (\<open>None\<close> when the name is not a
  namespace of the site), \<open>ns_case i\<close> is the \<open>case\<close> attribute of the namespace with
  identifier \<open>i\<close>, and \<open>namespaces[0]\<close> is the namespace with identifier \<open>0\<close>.
\<close>

record namespaces_dict =
  lookup_name :: "string \<Rightarrow> int option"
  ns_case :: "int \<Rightarrow> string"

text \<open>The local function \<open>ns_split\<close> of \<open>sametitle\<close>; \<open>default_ns\<close> is the variable of the
  enclosing method it reads.\<close>

definition ns_split :: "namespaces_dict \<Rightarrow> int \<Rightarrow> string \<Rightarrow> int \<times> string" where
  "ns_split nss default_ns title =
     (case partition_colon title of
        (ns, delim, name) \<Rightarrow>
          (if delim = [] then (default_ns, title)
           else (case lookup_name nss ns of
                   None \<Rightarrow> (default_ns, title)
                 | Some ns_obj \<Rightarrow> (ns_obj, name))))"

definition sametitle :: "namespaces_dict \<Rightarrow> string \<Rightarrow> string \<Rightarrow> bool" where
  "sametitle nss title1 title2 =
     (let title1 = sub_runs title1;
          title2 = sub_runs title2
      in if title1 = title2 then True
         else
           (let default_ns = 0;
                (ns1_obj, name1) = ns_split nss default_ns title1;
                (ns2_obj, name2) = ns_split nss default_ns title2
            in if ns1_obj \<noteq> ns2_obj then False
               else
                 (let name1 = strip name1;
                      name2 = strip name2
                  in if ns_case nss ns1_obj = ''first-letter''
                     then first_upper name1 = first_upper name2
                     else name1 = name2)))"

text \<open>A site with the namespaces Template (10) and Category (14), each found under its
  capitalised and its lowercase name, all of them folding the first letter.\<close>

definition example_namespaces :: namespaces_dict where
  "example_namespaces =
     \<lparr>lookup_name = map_of [(''Template'', 10), (''template'', 10),
                             (''Category'', 14), (''category'', 14)],
      ns_case = (\<lambda>i. ''first-letter'')\<rparr>"


section \<open>The site object\<close>

text \<open>
  The exceptions of the modelled methods: \<open>UnknownSite\<close> carries the code and the family
  name of its message, \<open>PageInUse\<close> the title, \<open>KeyError\<close> the missing key;
  \<open>UnknownFamily\<close> is what loading a family by name may raise.
\<close>

datatype error =
    UnknownSite string string
  | UnknownFamily string
  | PageInUse string
  | KeyError string

text \<open>
  The \<open>Family\<close> class is not under \<open>src/\<close>: a family is the record of the attributes the
  site code reads. \<open>langs\<close> and \<open>obsolete\<close> are dictionaries; an obsolete code maps to its
  replacement or to \<open>None\<close>.
\<close>

record family =
  fam_name :: string
  fam_langs :: "string \<rightharpoonup> string"
  fam_obsolete :: "string \<rightharpoonup> string option"
  fam_use_hard_category_redirects :: "string list"

text \<open>
  \<open>threading.Condition()\<close>: a lock, held by at most one thread, and the set of the threads
  suspended in \<open>wait()\<close>. Threads are numbered.
\<close>

record condition =
  owner :: "nat option"
  waiters :: "nat set"

definition Condition :: condition where
  "Condition = \<lparr>owner = None, waiters = {}\<rparr>"

text \<open>The throttle and the interwiki cache are opaque to the site code modelled here.\<close>

datatype throttle = Throttle bool

type_synonym iw_cache = "(string \<times> string) list"

text \<open>
  The attributes of a \<open>BaseSite\<close> instance that the initializer sets, and the two caches
  \<open>__getstate__\<close> looks for, which are absent (\<open>None\<close>) until something sets them.
\<close>

record base_site =
  code :: string
  family :: family
  obsolete :: bool
  username :: "string option"
  use_hard_category_redirects :: bool
  pagemutex :: condition
  locked_pages :: "string set"
  throttle :: "throttle option"
  iw_sites :: "iw_cache option"

text \<open>
  What the initializer reads and writes outside the instance: the constant
  \<open>CODE_CHARACTERS\<close> and the loader \<open>Family.load\<close> of \<open>pywikibot.family\<close>,
  \<open>normalize_username\<close> of \<open>pywikibot.tools\<close>, and the configuration variables \<open>family\<close> and
  \<open>mylang\<close>. None of them is under \<open>src/\<close>; they are parameters.
\<close>

record pywikibot =
  CODE_CHARACTERS :: string
  family_load :: "string option \<Rightarrow> error + family"
  normalize_username :: "string option \<Rightarrow> string option"
  config_family :: string
  config_mylang :: string

text \<open>The lines written with \<open>pywikibot.log\<close> and \<open>warn\<close>, by their arguments.\<close>

datatype message =
    Converted_to_lowercase string
  | Contains_invalid_characters string
  | Instantiated_using_aliases_code string string
  | Marked_obsolete string
  | Mylang_changed string string

text \<open>The argument \<open>fam\<close> of the initializer: a family name, \<open>None\<close>, or a family object.\<close>

datatype fam_arg = Fam_str string | Fam_none | Fam_obj family

text \<open>\<open>__str__\<close>, on the family and the code of the site.\<close>

definition str_site :: "family \<Rightarrow> string \<Rightarrow> string" where
  "str_site f c = fam_name f @ '':'' @ c"

text \<open>
  \<open>BaseSite.__init__\<close>, in the order of the source. First the code is lowercased and
  checked against \<open>CODE_CHARACTERS\<close>; both only log.
\<close>

definition lowercase_code :: "pywikibot \<Rightarrow> string \<Rightarrow> string \<times> message list" where
  "lowercase_code env code0 =
     (let changed = (lower code0 \<noteq> code0);
          log1 = (if changed then [Converted_to_lowercase code0] else []);
          code1 = (if changed then lower code0 else code0);
          log2 = (if list_all (\<lambda>x. x \<in> set (CODE_CHARACTERS env)) code1 then []
                  else [Contains_invalid_characters code1])
      in (code1, log1 @ log2))"

text \<open>A family given by name, or not given, is loaded; a family object is taken as it is.\<close>

definition get_family :: "pywikibot \<Rightarrow> fam_arg \<Rightarrow> error + family" where
  "get_family env fam =
     (case fam of
        Fam_str n \<Rightarrow> family_load env (Some n)
      | Fam_none \<Rightarrow> family_load env None
      | Fam_obj f \<Rightarrow> Inr f)"

text \<open>
  Then the code is looked up in the family: an obsolete code is replaced, or kept with the
  site marked obsolete; any other code must be a language of the family, unless the
  family has one language, named as the family is. The result is the final code, the
  \<open>obsolete\<close> flag, the module state and the lines logged.
  \<open>self.__family == pywikibot.config.family\<close> compares a family with a family name, which
  \<open>Family.__eq__\<close> settles on the names.
\<close>

definition resolve_code ::
  "pywikibot \<Rightarrow> family \<Rightarrow> string \<Rightarrow> error + (string \<times> bool \<times> pywikibot \<times> message list)"
where
  "resolve_code env f code1 =
     (case fam_obsolete f code1 of
        Some (Some new_code) \<Rightarrow>
          Inr (new_code, False, env,
               [Instantiated_using_aliases_code (str_site f new_code) code1])
      | Some None \<Rightarrow> Inr (code1, True, env, [Marked_obsolete (str_site f code1)])
      | None \<Rightarrow>
          (if fam_langs f code1 = None
           then (if fam_langs f (fam_name f) \<noteq> None \<and> card (dom (fam_langs f)) = 1
                 then (if fam_name f = config_family env \<and> code1 = config_mylang env
                       then Inr (fam_name f, False, env\<lparr>config_mylang := fam_name f\<rparr>,
                                 [Mylang_changed (fam_name f) (str_site f (fam_name f))])
                       else Inr (fam_name f, False, env, []))
                 else Inl (UnknownSite code1 (fam_name f)))
           else Inr (code1, False, env, [])))"

text \<open>The initializer: the exception raised, or the new site with the module state and the
  lines logged. A new site has a new condition variable and no locked page.\<close>

definition init ::
  "pywikibot \<Rightarrow> string \<Rightarrow> fam_arg \<Rightarrow> string option \<Rightarrow>
     error + (base_site \<times> pywikibot \<times> message list)"
where
  "init env code0 fam user =
     (case lowercase_code env code0 of
        (code1, log12) \<Rightarrow>
          (case get_family env fam of
             Inl e \<Rightarrow> Inl e
           | Inr f \<Rightarrow>
               (case resolve_code env f code1 of
                  Inl e \<Rightarrow> Inl e
                | Inr (code2, obs, env2, log3) \<Rightarrow>
                    Inr (\<lparr>code = code2, family = f, obsolete = obs,
                          username = normalize_username env user,
                          use_hard_category_redirects =
                            (code2 \<in> set (fam_use_hard_category_redirects f)),
                          pagemutex = Condition, locked_pages = {},
                          throttle = None, iw_sites = None\<rparr>,
                         env2, log12 @ log3))))"

text \<open>\<open>_cmpkey\<close>: sites are compared on the family name and the code.\<close>

definition cmpkey :: "base_site \<Rightarrow> string \<times> string" where
  "cmpkey s = (fam_name (family s), code s)"

text \<open>A family of two languages with a retired code and a renamed one, a family whose only
  language is named as the family is, and the module state used with them.\<close>

definition wikipedia :: family where
  "wikipedia =
     \<lparr>fam_name = ''wikipedia'',
      fam_langs = [''en'' \<mapsto> ''en.wikipedia.org'', ''de'' \<mapsto> ''de.wikipedia.org''],
      fam_obsolete = [''mo'' \<mapsto> None, ''dk'' \<mapsto> Some ''da''],
      fam_use_hard_category_redirects = []\<rparr>"

definition MyWiki :: family where
  "MyWiki =
     \<lparr>fam_name = ''MyWiki'',
      fam_langs = [''MyWiki'' \<mapsto> ''wiki.example.org''],
      fam_obsolete = Map.empty,
      fam_use_hard_category_redirects = []\<rparr>"

text \<open>A family with a language whose code is the sharp s.\<close>

definition sz_family :: family where
  "sz_family =
     \<lparr>fam_name = ''sz'',
      fam_langs = [[CHR 0xDF] \<mapsto> ''sz.example.org'', ''en'' \<mapsto> ''en.example.org''],
      fam_obsolete = Map.empty,
      fam_use_hard_category_redirects = []\<rparr>"

definition example_env :: pywikibot where
  "example_env =
     \<lparr>CODE_CHARACTERS = ''abcdefghijklmnopqrstuvwxyz0123456789-'',
      family_load = (\<lambda>n. Inl (UnknownFamily (case n of None \<Rightarrow> [] | Some x \<Rightarrow> x))),
      normalize_username = (\<lambda>u. u),
      config_family = ''wikipedia'',
      config_mylang = ''en''\<rparr>"


section \<open>Page locks\<close>

text \<open>The methods of the condition variable, for the calling thread \<open>t\<close>: taking and
  giving back its lock, \<open>wait()\<close>, which gives the lock back and suspends the caller among
  the waiters, and \<open>notify_all()\<close>, after which no thread is left waiting.\<close>

definition acquire :: "nat \<Rightarrow> condition \<Rightarrow> condition" where
  "acquire t c = c\<lparr>owner := Some t\<rparr>"

definition release :: "condition \<Rightarrow> condition" where
  "release c = c\<lparr>owner := None\<rparr>"

definition wait :: "nat \<Rightarrow> condition \<Rightarrow> condition" where
  "wait t c = c\<lparr>owner := None, waiters := insert t (waiters c)\<rparr>"

definition notify_all :: "condition \<Rightarrow> condition" where
  "notify_all c = c\<lparr>waiters := {}\<rparr>"

text \<open>
  How a call ends: it returns, it raises, or it is suspended in \<open>wait()\<close>; each with the
  site as the call leaves it.
\<close>

datatype outcome = Returned base_site | Raised error base_site | Suspended base_site

text \<open>
  \<open>lock_page\<close> and \<open>unlock_page\<close>, from the moment the calling thread \<open>t\<close> is given the lock
  of \<open>_pagemutex\<close> to the moment it gives it back. The \<open>Page\<close> class is not under \<open>src/\<close>:
  the page is of any type, and its method \<open>title\<close> is the parameter \<open>title\<close>, applied to
  the page and the value of \<open>with_section\<close>. A suspended call goes through the loop again
  once it has been woken and has the lock back.
\<close>

definition lock_page ::
  "('p \<Rightarrow> bool \<Rightarrow> string) \<Rightarrow> nat \<Rightarrow> base_site \<Rightarrow> 'p \<Rightarrow> bool \<Rightarrow> outcome"
where
  "lock_page title t self page block =
     (let ti = title page False;
          self = self\<lparr>pagemutex := acquire t (pagemutex self)\<rparr>
      in if ti \<in> locked_pages self
         then (if \<not> block
               then Raised (PageInUse ti) (self\<lparr>pagemutex := release (pagemutex self)\<rparr>)
               else Suspended (self\<lparr>pagemutex := wait t (pagemutex self)\<rparr>))
         else (let self = self\<lparr>locked_pages := insert ti (locked_pages self)\<rparr>
               in Returned (self\<lparr>pagemutex := release (pagemutex self)\<rparr>)))"

definition unlock_page ::
  "('p \<Rightarrow> bool \<Rightarrow> string) \<Rightarrow> nat \<Rightarrow> base_site \<Rightarrow> 'p \<Rightarrow> outcome"
where
  "unlock_page title t self page =
     (let self = self\<lparr>pagemutex := acquire t (pagemutex self)\<rparr>;
          self = self\<lparr>locked_pages := locked_pages self - {title page False}\<rparr>;
          self = self\<lparr>pagemutex := notify_all (pagemutex self)\<rparr>
      in Returned (self\<lparr>pagemutex := release (pagemutex self)\<rparr>))"

subsection \<open>Threads\<close>

text \<open>
  Several threads call the two methods on one site. Each thread is at one statement of
  one of the methods, or in no call:
  \<^item> \<open>L_with\<close>, \<open>U_with\<close>: at \<open>with self._pagemutex:\<close>, waiting for the lock;
  \<^item> \<open>L_while\<close>: at the test of the loop;
  \<^item> \<open>L_raise\<close>: at \<open>raise PageInUse(title)\<close>, which leaves the \<open>with\<close> block;
  \<^item> \<open>L_wait\<close>: at \<open>self._pagemutex.wait()\<close>; \<open>L_sleep\<close>: suspended in it;
  \<^item> \<open>L_add\<close>: at \<open>self._locked_pages.add(title)\<close>;
  \<^item> \<open>U_discard\<close>: at \<open>self._locked_pages.discard(...)\<close>; \<open>U_notify\<close>: at \<open>notify_all()\<close>;
  \<^item> \<open>L_exit\<close>, \<open>U_exit\<close>: at the end of the \<open>with\<close> block.
\<close>

datatype pc =
    Idle
  | L_with string bool
  | L_while string bool
  | L_raise string
  | L_wait string bool
  | L_sleep string bool
  | L_add string
  | L_exit
  | U_with string
  | U_discard string
  | U_notify
  | U_exit

text \<open>
  The state of the threads and the site. \<open>holds\<close> is not in the code: it records which
  caller holds which title, from the statement that adds the title for that caller to
  the statement with which the same caller discards it.
\<close>

record system =
  site :: base_site
  pc :: "nat \<Rightarrow> pc"
  holds :: "(nat \<times> string) set"

text \<open>One statement of thread \<open>t\<close>. A thread that cannot go on (the lock is taken, or it
  has not been woken) stays where it is.\<close>

definition step :: "nat \<Rightarrow> system \<Rightarrow> system" where
  "step t \<sigma> =
     (let s = site \<sigma>; m = pagemutex s in
      case pc \<sigma> t of
        Idle \<Rightarrow> \<sigma>
      | L_with ti block \<Rightarrow>
          (if owner m = None
           then \<sigma>\<lparr>site := s\<lparr>pagemutex := acquire t m\<rparr>, pc := (pc \<sigma>)(t := L_while ti block)\<rparr>
           else \<sigma>)
      | L_while ti block \<Rightarrow>
          (if ti \<in> locked_pages s
           then (if \<not> block then \<sigma>\<lparr>pc := (pc \<sigma>)(t := L_raise ti)\<rparr>
                 else \<sigma>\<lparr>pc := (pc \<sigma>)(t := L_wait ti block)\<rparr>)
           else \<sigma>\<lparr>pc := (pc \<sigma>)(t := L_add ti)\<rparr>)
      | L_raise ti \<Rightarrow>
          \<sigma>\<lparr>site := s\<lparr>pagemutex := release m\<rparr>, pc := (pc \<sigma>)(t := Idle)\<rparr>
      | L_wait ti block \<Rightarrow>
          \<sigma>\<lparr>site := s\<lparr>pagemutex := wait t m\<rparr>, pc := (pc \<sigma>)(t := L_sleep ti block)\<rparr>
      | L_sleep ti block \<Rightarrow>
          (if t \<in> waiters m then \<sigma>
           else if owner m = None
           then \<sigma>\<lparr>site := s\<lparr>pagemutex := acquire t m\<rparr>, pc := (pc \<sigma>)(t := L_while ti block)\<rparr>
           else \<sigma>)
      | L_add ti \<Rightarrow>
          \<sigma>\<lparr>site := s\<lparr>locked_pages := insert ti (locked_pages s)\<rparr>,
            pc := (pc \<sigma>)(t := L_exit),
            holds := insert (t, ti) (holds \<sigma>)\<rparr>
      | L_exit \<Rightarrow>
          \<sigma>\<lparr>site := s\<lparr>pagemutex := release m\<rparr>, pc := (pc \<sigma>)(t := Idle)\<rparr>
      | U_with ti \<Rightarrow>
          (if owner m = None
           then \<sigma>\<lparr>site := s\<lparr>pagemutex := acquire t m\<rparr>, pc := (pc \<sigma>)(t := U_discard ti)\<rparr>
           else \<sigma>)
      | U_discard ti \<Rightarrow>
          \<sigma>\<lparr>site := s\<lparr>locked_pages := locked_pages s - {ti}\<rparr>,
            pc := (pc \<sigma>)(t := U_notify),
            holds := holds \<sigma> - {(t, ti)}\<rparr>
      | U_notify \<Rightarrow>
          \<sigma>\<lparr>site := s\<lparr>pagemutex := notify_all m\<rparr>, pc := (pc \<sigma>)(t := U_exit)\<rparr>
      | U_exit \<Rightarrow>
          \<sigma>\<lparr>site := s\<lparr>pagemutex := release m\<rparr>, pc := (pc \<sigma>)(t := Idle)\<rparr>)"

text \<open>What happens next: a thread in no call calls one of the methods (the title is
  computed before the \<open>with\<close> block is entered), or a thread runs its next statement.\<close>

datatype 'p event = Call_lock nat 'p bool | Call_unlock nat 'p | Step nat

definition exec1 :: "('p \<Rightarrow> bool \<Rightarrow> string) \<Rightarrow> 'p event \<Rightarrow> system \<Rightarrow> system" where
  "exec1 title e \<sigma> =
     (case e of
        Call_lock t page block \<Rightarrow>
          (if pc \<sigma> t = Idle then \<sigma>\<lparr>pc := (pc \<sigma>)(t := L_with (title page False) block)\<rparr>
           else \<sigma>)
      | Call_unlock t page \<Rightarrow>
          (if pc \<sigma> t = Idle then \<sigma>\<lparr>pc := (pc \<sigma>)(t := U_with (title page False))\<rparr>
           else \<sigma>)
      | Step t \<Rightarrow> step t \<sigma>)"

fun exec :: "('p \<Rightarrow> bool \<Rightarrow> string) \<Rightarrow> 'p event list \<Rightarrow> system \<Rightarrow> system" where
  "exec title [] \<sigma> = \<sigma>"
| "exec title (e # es) \<sigma> = exec title es (exec1 title e \<sigma>)"

text \<open>The threads before any call on the site \<open>s\<close>.\<close>

definition start :: "base_site \<Rightarrow> system" where
  "start s = \<lparr>site = s, pc = (\<lambda>t. Idle), holds = {}\<rparr>"

text \<open>An event takes a title from under another caller when it is the discard of a thread
  and a different thread holds the title discarded.\<close>

definition foreign_unlock :: "system \<Rightarrow> 'p event \<Rightarrow> bool" where
  "foreign_unlock \<sigma> e =
     (case e of
        Step t \<Rightarrow> (case pc \<sigma> t of U_discard ti \<Rightarrow> ti \<in> snd ` (holds \<sigma> - {(t, ti)}) | _ \<Rightarrow> False)
      | _ \<Rightarrow> False)"

text \<open>A run in which no caller takes a title from under another.\<close>

fun own_unlocks :: "('p \<Rightarrow> bool \<Rightarrow> string) \<Rightarrow> system \<Rightarrow> 'p event list \<Rightarrow> bool" where
  "own_unlocks title \<sigma> [] = True"
| "own_unlocks title \<sigma> (e # es) =
     (if foreign_unlock \<sigma> e then False else own_unlocks title (exec1 title e \<sigma>) es)"

section \<open>Pickling\<close>

text \<open>
  \<open>__getstate__\<close> and \<open>__setstate__\<close> work on the dictionary of the instance's attributes:
  a map from attribute names to values.
\<close>

datatype pyval =
    Str string
  | Bool bool
  | Opt_str "string option"
  | Fam family
  | Cond condition
  | Titles "string set"
  | Thr throttle
  | Iw iw_cache

type_synonym pydict = "string \<rightharpoonup> pyval"

text \<open>\<open>self.__dict__\<close> of a site: the attributes the initializer sets, under the names
  Python gives them, and the caches that are set.\<close>

definition inst_dict :: "base_site \<Rightarrow> pydict" where
  "inst_dict s =
     [''_BaseSite__code'' \<mapsto> Str (code s),
      ''_BaseSite__family'' \<mapsto> Fam (family s),
      ''obsolete'' \<mapsto> Bool (obsolete s),
      ''_username'' \<mapsto> Opt_str (username s),
      ''use_hard_category_redirects'' \<mapsto> Bool (use_hard_category_redirects s),
      ''_pagemutex'' \<mapsto> Cond (pagemutex s),
      ''_locked_pages'' \<mapsto> Titles (locked_pages s)]
     ++ (case throttle s of None \<Rightarrow> Map.empty | Some x \<Rightarrow> [''_throttle'' \<mapsto> Thr x])
     ++ (case iw_sites s of None \<Rightarrow> Map.empty | Some x \<Rightarrow> [''_iw_sites'' \<mapsto> Iw x])"

text \<open>\<open>__getstate__\<close>, on \<open>self.__dict__\<close>; \<open>del\<close> of a key that is not there raises.\<close>

definition getstate :: "pydict \<Rightarrow> error + pydict" where
  "getstate self_dict =
     (let new = self_dict in
      if new ''_pagemutex'' = None then Inl (KeyError ''_pagemutex'')
      else
        (let new = new(''_pagemutex'' := None);
             new = (if new ''_throttle'' \<noteq> None then new(''_throttle'' := None) else new);
             new = (if new ''_iw_sites'' \<noteq> None then new(''_iw_sites'' := None) else new)
         in Inr new))"

text \<open>\<open>__setstate__\<close>, on \<open>self.__dict__\<close> and the state; the result is the updated
  dictionary.\<close>

definition setstate :: "pydict \<Rightarrow> pydict \<Rightarrow> pydict" where
  "setstate self_dict attrs = (self_dict ++ attrs)(''_pagemutex'' \<mapsto> Cond Condition)"

text \<open>Pickling a site and loading the pickle: the state of the site is given to
  \<open>__setstate__\<close> of a new instance, which has no attribute yet.\<close>

definition dumps_loads :: "base_site \<Rightarrow> error + pydict" where
  "dumps_loads s =
     (case getstate (inst_dict s) of
        Inl e \<Rightarrow> Inl e
      | Inr attrs \<Rightarrow> Inr (setstate Map.empty attrs))"

text \<open>The English site of the example family, as the initializer leaves it.\<close>

definition en_site :: base_site where
  "en_site =
     \<lparr>code = ''en'', family = wikipedia, obsolete = False, username = None,
      use_hard_category_redirects = False, pagemutex = Condition, locked_pages = {},
      throttle = None, iw_sites = None\<rparr>"

text \<open>Pages with a title and a section, for the examples.\<close>

definition example_title :: "string \<times> string \<Rightarrow> bool \<Rightarrow> string" where
  "example_title page with_section =
     (if with_section then fst page @ ''#'' @ snd page else fst page)"

text \<open>The site a call leaves behind, however it ends.\<close>

definition state_of :: "outcome \<Rightarrow> base_site" where
  "state_of r = (case r of Returned s \<Rightarrow> s | Raised e s \<Rightarrow> s | Suspended s \<Rightarrow> s)"

text \<open>The statements inside a \<open>with self._pagemutex:\<close> block: a thread at one of them has
  the lock.\<close>

fun in_cs :: "pc \<Rightarrow> bool" where
  "in_cs Idle = False"
| "in_cs (L_with ti b) = False"
| "in_cs (L_sleep ti b) = False"
| "in_cs (U_with ti) = False"
| "in_cs (L_while ti b) = True"
| "in_cs (L_raise ti) = True"
| "in_cs (L_wait ti b) = True"
| "in_cs (L_add ti) = True"
| "in_cs L_exit = True"
| "in_cs (U_discard ti) = True"
| "in_cs U_notify = True"
| "in_cs U_exit = True"

text \<open>What every run keeps true: the thread inside a \<open>with\<close> block is the owner of the lock;
  a thread about to add a title has found it free; the locked titles are the titles
  held, each by one caller.\<close>

definition mutex_inv :: "system \<Rightarrow> bool" where
  "mutex_inv \<sigma> = (\<forall>t. in_cs (pc \<sigma> t) \<longrightarrow> owner (pagemutex (site \<sigma>)) = Some t)"

definition add_inv :: "system \<Rightarrow> bool" where
  "add_inv \<sigma> = (\<forall>t ti. pc \<sigma> t = L_add ti \<longrightarrow> ti \<notin> locked_pages (site \<sigma>))"

definition holds_inv :: "system \<Rightarrow> bool" where
  "holds_inv \<sigma> = (locked_pages (site \<sigma>) = snd ` holds \<sigma> \<and> inj_on snd (holds \<sigma>))"

definition lock_inv :: "system \<Rightarrow> bool" where
  "lock_inv \<sigma> = (mutex_inv \<sigma> \<and> add_inv \<sigma> \<and> holds_inv \<sigma>)"

text \<open>Two runs on the page \<open>X\<close>. In the first, thread 0 locks the page, thread 1 unlocks it
  without holding it, and thread 2 locks it. In the second, thread 0 locks the page,
  thread 1 asks for it and is suspended, thread 0 unlocks it, and thread 1 wakes up and
  locks it.\<close>

definition foreign_run :: "(string \<times> string) event list" where
  "foreign_run =
     [Call_lock 0 (''X'', ''a'') True, Step 0, Step 0, Step 0, Step 0,
      Call_unlock 1 (''X'', ''b''), Step 1, Step 1, Step 1, Step 1,
      Call_lock 2 (''X'', []) True, Step 2, Step 2, Step 2, Step 2]"

definition handover_run :: "(string \<times> string) event list" where
  "handover_run =
     [Call_lock 0 (''X'', ''a'') True, Step 0, Step 0, Step 0, Step 0,
      Call_lock 1 (''X'', ''b'') True, Step 1, Step 1, Step 1, Step 1,
      Call_unlock 0 (''X'', []), Step 0, Step 0, Step 0, Step 0,
      Step 1, Step 1, Step 1, Step 1]"

text \<open>The example site with the page \<open>X\<close> locked and the threads 1 and 2 waiting.\<close>

definition busy_site :: base_site where
  "busy_site = en_site\<lparr>locked_pages := {''X''}, pagemutex := \<lparr>owner = None, waiters = {1, 2}\<rparr>\<rparr>"


section \<open>Properties of the string functions\<close>

lemma lower_char_upper_char: "lower_char (upper_char c) = lower_char c"
  unfolding lower_char_def upper_char_def less_eq_char_def by auto

lemma lower_char_idem: "lower_char (lower_char c) = lower_char c"
  unfolding lower_char_def by auto

lemma lower_idem: "lower (lower s) = lower s"
  by (simp add: lower_def lower_char_idem)

lemma upper_chars_ascii: "(of_char c :: nat) < 128 \<Longrightarrow> upper_chars c = Some [upper_char c]"
  unfolding upper_chars_def upper_char_def less_eq_char_def by auto

lemma upper_ascii: "isascii s \<Longrightarrow> upper s = Some (map upper_char s)"
  by (induction s) (auto simp: upper_def isascii_def upper_chars_ascii split: option.splits)

lemma lower_upper: "isascii s \<Longrightarrow> upper s = Some u \<Longrightarrow> lower u = lower s"
  by (auto simp: upper_ascii lower_def lower_char_upper_char)

lemma lower_examples:
  "lower ''MO'' = ''mo''" "lower ''mo'' = ''mo''" "lower ''EN'' = ''en''" "lower ''en'' = ''en''"
  "lower ''xx'' = ''xx''" "lower ''MyWiki'' = ''mywiki''" "upper ''EN'' = Some ''EN''"
  "lower ''wikipedia'' = ''wikipedia''" "lower ''SS'' = ''ss''"
  "lower [CHR 0xDF] = [CHR 0xDF]" "upper [CHR 0xDF] = Some ''SS''" "isascii ''EN''"
  by code_simp+



section \<open>Properties of title equivalence\<close>

text \<open>
  C8: two titles that \<open>ns_split\<close> puts in namespaces with different identifiers are never
  the same title, whatever their local names; their normalised forms then differ, since
  equal forms are split alike. In particular \<open>Category:Foo\<close> and \<open>foo\<close> are not the same
  title when \<open>Category\<close> names a namespace other than the main one.
\<close>

theorem sametitle_different_namespaces:
  "(fst (ns_split nss 0 (sub_runs t1)) \<noteq> fst (ns_split nss 0 (sub_runs t2))
      \<longrightarrow> \<not> sametitle nss t1 t2) \<and>
   (lookup_name nss ''Category'' = Some c \<and> c \<noteq> 0
      \<longrightarrow> \<not> sametitle nss ''Category:Foo'' ''foo'')"
proof
  show "fst (ns_split nss 0 (sub_runs t1)) \<noteq> fst (ns_split nss 0 (sub_runs t2))
      \<longrightarrow> \<not> sametitle nss t1 t2"
    by (auto simp: sametitle_def Let_def split: prod.splits)
  show "lookup_name nss ''Category'' = Some c \<and> c \<noteq> 0
      \<longrightarrow> \<not> sametitle nss ''Category:Foo'' ''foo''"
    by (simp add: sametitle_def is_sep_def ns_split_def partition_colon_def)
qed

theorem sametitle_different_namespaces_witness:
  "fst (ns_split example_namespaces 0 (sub_runs ''Category:Foo'')) = 14 \<and>
   fst (ns_split example_namespaces 0 (sub_runs ''Template:Foo'')) = 10 \<and>
   lookup_name example_namespaces ''Category'' = Some 14 \<and>
   \<not> sametitle example_namespaces ''Category:Foo'' ''Template:Foo'' \<and>
   \<not> sametitle example_namespaces ''Category:Foo'' ''foo''"
  using sametitle_different_namespaces
          [of example_namespaces "''Category:Foo''" "''Template:Foo''" 14]
  by (simp add: example_namespaces_def ns_split_def partition_colon_def is_sep_def)



text \<open>
  C10: on a fixed site \<open>sametitle\<close> is reflexive and symmetric; two titles that differ only in
  their runs of underscores and spaces, which are the titles that \<open>sub_runs\<close> makes equal,
  are the same title; \<open>Foo_bar\<close> and \<open>Foo bar\<close> are.
\<close>

theorem sametitle_reflexive_symmetric:
  "sametitle nss t t \<and>
   sametitle nss t1 t2 = sametitle nss t2 t1 \<and>
   (sub_runs t1 = sub_runs t2 \<longrightarrow> sametitle nss t1 t2) \<and>
   sametitle nss ''Foo_bar'' ''Foo bar''"
proof (intro conjI impI)
  show "sametitle nss t t"
    by (simp add: sametitle_def)
  show "sametitle nss t1 t2 = sametitle nss t2 t1"
    by (auto simp: sametitle_def Let_def split: prod.splits)
  show "sametitle nss t1 t2" if "sub_runs t1 = sub_runs t2"
    using that by (simp add: sametitle_def)
  show "sametitle nss ''Foo_bar'' ''Foo bar''"
    by (simp add: sametitle_def is_sep_def)
qed

theorem sametitle_reflexive_symmetric_witness:
  "sub_runs ''Template:Foo__ _bar'' = sub_runs ''Template:Foo bar'' \<and>
   sametitle example_namespaces ''Template:Foo__ _bar'' ''Template:Foo bar'' \<and>
   sametitle example_namespaces ''Template:Foo bar'' ''Template:Foo__ _bar''"
proof -
  have e: "sub_runs ''Template:Foo__ _bar'' = sub_runs ''Template:Foo bar''"
    by (simp add: is_sep_def)
  from sametitle_reflexive_symmetric
         [of example_namespaces "''Template:Foo bar''" "''Template:Foo__ _bar''"
             "''Template:Foo bar''"] e
  show ?thesis
    by blast
qed


section \<open>Properties of the initializer\<close>

lemma fst_lowercase_code: "fst (lowercase_code env c) = lower c"
  by (simp add: lowercase_code_def Let_def)

lemma init_resolved:
  assumes "get_family env fam = Inr f"
    and "resolve_code env f (lower c) = Inr (code2, obs, env2, log3)"
  shows "\<exists>lg. init env c fam user =
           Inr (\<lparr>code = code2, family = f, obsolete = obs,
                 username = normalize_username env user,
                 use_hard_category_redirects = (code2 \<in> set (fam_use_hard_category_redirects f)),
                 pagemutex = Condition, locked_pages = {}, throttle = None, iw_sites = None\<rparr>,
                env2, lg)"
  using assms fst_lowercase_code [of env c]
  by (cases "lowercase_code env c") (simp add: init_def)

lemma init_rejected:
  assumes "get_family env fam = Inr f" and "resolve_code env f (lower c) = Inl e"
  shows "init env c fam user = Inl e"
  using assms fst_lowercase_code [of env c]
  by (cases "lowercase_code env c") (simp add: init_def)

lemma resolve_code_cases:
  assumes "resolve_code env f c1 = Inr (code2, obs, env2, log3)"
  shows "code2 = c1 \<or> fam_obsolete f c1 = Some (Some code2) \<or> code2 = fam_name f"
  using assms by (auto simp: resolve_code_def split: option.splits if_splits)

lemma resolve_code_valid:
  assumes "fam_obsolete f c1 = None" and "fam_langs f c1 = Some d"
  shows "resolve_code env f c1 = Inr (c1, False, env, [])"
  using assms by (simp add: resolve_code_def)

lemma resolve_code_in_langs:
  assumes "fam_langs f c1 = Some d"
  shows "\<exists>code2 obs lg. resolve_code env f c1 = Inr (code2, obs, env, lg)"
  using assms by (auto simp: resolve_code_def split: option.splits)

lemma init_cases:
  "(\<exists>e. init env c fam user = Inl e) \<or>
   (\<exists>f code2 obs env2 log3 lg. get_family env fam = Inr f \<and>
      resolve_code env f (lower c) = Inr (code2, obs, env2, log3) \<and>
      init env c fam user =
           Inr (\<lparr>code = code2, family = f, obsolete = obs,
                 username = normalize_username env user,
                 use_hard_category_redirects = (code2 \<in> set (fam_use_hard_category_redirects f)),
                 pagemutex = Condition, locked_pages = {}, throttle = None, iw_sites = None\<rparr>,
                env2, lg))"
  using fst_lowercase_code [of env c]
  by (cases "lowercase_code env c") (auto simp: init_def split: sum.splits)

text \<open>
  C5: when the lowercased code is a key of the family's \<open>obsolete\<close> dictionary with the value
  \<open>None\<close>, the initializer returns a site, the site is marked obsolete and its code is the
  lowercased code. Nothing is asked of the family's languages: the code need not be one
  of them.
\<close>

theorem init_obsolete_without_replacement:
  assumes "get_family env fam = Inr f" and "fam_obsolete f (lower c) = Some None"
  shows "\<exists>s env' lg. init env c fam user = Inr (s, env', lg) \<and>
           obsolete s \<and> code s = lower c \<and> family s = f"
proof -
  have "resolve_code env f (lower c) =
          Inr (lower c, True, env, [Marked_obsolete (str_site f (lower c))])"
    using assms(2) by (simp add: resolve_code_def)
  from init_resolved [OF assms(1) this, of user] show ?thesis by auto
qed

theorem init_obsolete_without_replacement_witness:
  "get_family example_env (Fam_obj wikipedia) = Inr wikipedia \<and>
   fam_obsolete wikipedia (lower ''MO'') = Some None \<and>
   fam_langs wikipedia (lower ''MO'') = None \<and>
   (\<exists>s env' lg. init example_env ''MO'' (Fam_obj wikipedia) None = Inr (s, env', lg) \<and>
      obsolete s \<and> code s = ''mo'' \<and> family s = wikipedia)"
  using init_obsolete_without_replacement
          [of example_env "Fam_obj wikipedia" wikipedia "''MO''" None]
  by (simp add: get_family_def wikipedia_def lower_examples)

text \<open>
  C6: the initializer lowercases the requested code before it looks it up. When the code,
  so lowercased, is neither a key of \<open>obsolete\<close> nor a language of the family, the
  initializer returns a site whose code is the family name if the family name is the only
  language of the family, and raises \<open>UnknownSite\<close> with the code and the family name
  otherwise.
\<close>

theorem init_unknown_code:
  assumes "get_family env fam = Inr f"
    and "fam_obsolete f (lower c) = None" and "fam_langs f (lower c) = None"
  shows "if fam_langs f (fam_name f) \<noteq> None \<and> card (dom (fam_langs f)) = 1
         then \<exists>s env' lg. init env c fam user = Inr (s, env', lg) \<and>
                code s = fam_name f \<and> family s = f \<and> \<not> obsolete s
         else init env c fam user = Inl (UnknownSite (lower c) (fam_name f))"
proof (cases "fam_langs f (fam_name f) \<noteq> None \<and> card (dom (fam_langs f)) = 1")
  case True
  then have "\<exists>env2 log3. resolve_code env f (lower c) = Inr (fam_name f, False, env2, log3)"
    using assms(2,3) by (simp add: resolve_code_def)
  then obtain env2 log3
    where "resolve_code env f (lower c) = Inr (fam_name f, False, env2, log3)" by blast
  from init_resolved [OF assms(1) this, of user] True show ?thesis by auto
next
  case False
  then have "resolve_code env f (lower c) = Inl (UnknownSite (lower c) (fam_name f))"
    using assms(2,3) by (auto simp: resolve_code_def)
  from init_rejected [OF assms(1) this] False show ?thesis by simp
qed

theorem init_unknown_code_witness:
  "fam_obsolete MyWiki (lower ''xx'') = None \<and> fam_langs MyWiki (lower ''xx'') = None \<and>
   fam_obsolete wikipedia (lower ''xx'') = None \<and> fam_langs wikipedia (lower ''xx'') = None \<and>
   (\<exists>s env' lg. init example_env ''xx'' (Fam_obj MyWiki) None = Inr (s, env', lg) \<and>
      code s = ''MyWiki'' \<and> family s = MyWiki \<and> \<not> obsolete s) \<and>
   init example_env ''xx'' (Fam_obj wikipedia) None = Inl (UnknownSite ''xx'' ''wikipedia'')"
proof -
  have m: "fam_obsolete MyWiki ''xx'' = None" "fam_langs MyWiki ''xx'' = None"
      "fam_langs MyWiki ''MyWiki'' \<noteq> None" "fam_name MyWiki = ''MyWiki''"
    by (simp_all add: MyWiki_def)
  have w: "fam_obsolete wikipedia ''xx'' = None"
      "fam_langs wikipedia ''xx'' = None" "fam_name wikipedia = ''wikipedia''"
    by (simp_all add: wikipedia_def)
  have "dom (fam_langs wikipedia) = {''en'', ''de''}" "dom (fam_langs MyWiki) = {''MyWiki''}"
    by (auto simp: wikipedia_def MyWiki_def)
  then have c: "card (dom (fam_langs wikipedia)) = 2" "card (dom (fam_langs MyWiki)) = 1"
    by simp_all
  show ?thesis
    using init_unknown_code [of example_env "Fam_obj MyWiki" MyWiki "''xx''" None]
      init_unknown_code [of example_env "Fam_obj wikipedia" wikipedia "''xx''" None]
    by (simp add: get_family_def lower_examples m w c)
qed

text \<open>
  C7, as far as it holds: for a code of ASCII characters whose lowercased form is a
  language of the family, the uppercased and the lowercased form both give a site, and
  the two sites have the same key; a code whose lowercased form is a language of the
  family and not an obsolete code is stored lowercased; the stored code is always the
  lowercased code, the replacement of the obsolete code, or the family name; so it is
  lowercase whenever the family name and that replacement are.
\<close>

theorem init_case_insensitive:
  "(isascii c \<and> get_family env fam = Inr f \<and> fam_langs f (lower c) = Some d
      \<longrightarrow> (\<exists>u s1 e1 l1 s2 e2 l2. upper c = Some u \<and>
             init env u fam user = Inr (s1, e1, l1) \<and>
             init env (lower c) fam user = Inr (s2, e2, l2) \<and>
             cmpkey s1 = cmpkey s2)) \<and>
   (get_family env fam = Inr f \<and> fam_obsolete f (lower c) = None \<and> fam_langs f (lower c) = Some d
      \<longrightarrow> (\<exists>s env' lg. init env c fam user = Inr (s, env', lg) \<and> code s = lower c)) \<and>
   (init env c fam user = Inr (s, env', lg)
      \<longrightarrow> code s = lower c \<or> fam_obsolete (family s) (lower c) = Some (Some (code s)) \<or>
          code s = fam_name (family s)) \<and>
   (init env c fam user = Inr (s, env', lg) \<and>
    lower (fam_name (family s)) = fam_name (family s) \<and>
    (case fam_obsolete (family s) (lower c) of Some (Some r) \<Rightarrow> lower r = r | _ \<Rightarrow> True)
      \<longrightarrow> lower (code s) = code s)"
proof (intro conjI impI)
  assume a: "isascii c \<and> get_family env fam = Inr f \<and> fam_langs f (lower c) = Some d"
  then have u: "upper c = Some (map upper_char c)"
    by (simp add: upper_ascii)
  with a have lu: "lower (map upper_char c) = lower c"
    by (simp add: lower_upper)
  from a obtain code2 obs lg
    where r: "resolve_code env f (lower c) = Inr (code2, obs, env, lg)"
    using resolve_code_in_langs by blast
  from a have g: "get_family env fam = Inr f"
    by simp
  from r lu have "resolve_code env f (lower (map upper_char c)) = Inr (code2, obs, env, lg)"
    by simp
  from init_resolved [OF g this, of user] obtain l1 where
    1: "init env (map upper_char c) fam user =
           Inr (\<lparr>code = code2, family = f, obsolete = obs,
                 username = normalize_username env user,
                 use_hard_category_redirects = (code2 \<in> set (fam_use_hard_category_redirects f)),
                 pagemutex = Condition, locked_pages = {}, throttle = None, iw_sites = None\<rparr>,
                env, l1)"
    by blast
  from r have "resolve_code env f (lower (lower c)) = Inr (code2, obs, env, lg)"
    by (simp add: lower_idem)
  from init_resolved [OF g this, of user] obtain l2 where
    2: "init env (lower c) fam user =
           Inr (\<lparr>code = code2, family = f, obsolete = obs,
                 username = normalize_username env user,
                 use_hard_category_redirects = (code2 \<in> set (fam_use_hard_category_redirects f)),
                 pagemutex = Condition, locked_pages = {}, throttle = None, iw_sites = None\<rparr>,
                env, l2)"
    by blast
  from u 1 2 show "\<exists>u s1 e1 l1 s2 e2 l2. upper c = Some u \<and>
             init env u fam user = Inr (s1, e1, l1) \<and>
             init env (lower c) fam user = Inr (s2, e2, l2) \<and>
             cmpkey s1 = cmpkey s2"
    by (simp add: cmpkey_def)
next
  assume a: "get_family env fam = Inr f \<and> fam_obsolete f (lower c) = None \<and>
    fam_langs f (lower c) = Some d"
  then have "resolve_code env f (lower c) = Inr (lower c, False, env, [])"
    by (simp add: resolve_code_valid)
  from init_resolved [OF _ this, of fam user] a
  show "\<exists>s env' lg. init env c fam user = Inr (s, env', lg) \<and> code s = lower c"
    by auto
next
  assume a: "init env c fam user = Inr (s, env', lg)"
  with init_cases [of env c fam user] obtain f code2 obs env2 log3
    where r: "resolve_code env f (lower c) = Inr (code2, obs, env2, log3)"
      and s: "code s = code2" "family s = f"
    by auto
  from resolve_code_cases [OF r] s
  show "code s = lower c \<or> fam_obsolete (family s) (lower c) = Some (Some (code s)) \<or>
          code s = fam_name (family s)"
    by simp
next
  assume a: "init env c fam user = Inr (s, env', lg) \<and>
    lower (fam_name (family s)) = fam_name (family s) \<and>
    (case fam_obsolete (family s) (lower c) of Some (Some r) \<Rightarrow> lower r = r | _ \<Rightarrow> True)"
  with init_cases [of env c fam user] obtain f code2 obs env2 log3
    where r: "resolve_code env f (lower c) = Inr (code2, obs, env2, log3)"
      and s: "code s = code2" "family s = f"
    by auto
  from resolve_code_cases [OF r] s
  have "code s = lower c \<or> fam_obsolete (family s) (lower c) = Some (Some (code s)) \<or>
          code s = fam_name (family s)"
    by simp
  with a show "lower (code s) = code s"
    by (auto simp: lower_idem)
qed

theorem init_case_insensitive_witness:
  "isascii ''EN'' \<and>
   get_family example_env (Fam_obj wikipedia) = Inr wikipedia \<and>
   fam_obsolete wikipedia (lower ''EN'') = None \<and>
   fam_langs wikipedia (lower ''EN'') = Some ''en.wikipedia.org'' \<and>
   init example_env ''EN'' (Fam_obj wikipedia) None =
     Inr (en_site, example_env, [Converted_to_lowercase ''EN'']) \<and>
   lower (fam_name (family en_site)) = fam_name (family en_site) \<and>
   (\<exists>u s1 e1 l1 s2 e2 l2. upper ''EN'' = Some u \<and>
      init example_env u (Fam_obj wikipedia) None = Inr (s1, e1, l1) \<and>
      init example_env (lower ''EN'') (Fam_obj wikipedia) None = Inr (s2, e2, l2) \<and>
      cmpkey s1 = cmpkey s2) \<and>
   code en_site = lower ''EN'' \<and>
   lower (code en_site) = code en_site"
proof -
  have w: "fam_obsolete wikipedia ''en'' = None"
      "fam_langs wikipedia ''en'' = Some ''en.wikipedia.org''"
    by (simp_all add: wikipedia_def)
  have l: "lowercase_code example_env ''EN'' = (''en'', [Converted_to_lowercase ''EN''])"
    by (simp add: lowercase_code_def lower_examples Let_def example_env_def)
  have r: "resolve_code example_env wikipedia ''en'' = Inr (''en'', False, example_env, [])"
    by (simp add: resolve_code_def w)
  have n: "normalize_username example_env None = None"
      "fam_use_hard_category_redirects wikipedia = []"
    by (simp_all add: example_env_def wikipedia_def)
  have i: "init example_env ''EN'' (Fam_obj wikipedia) None =
     Inr (en_site, example_env, [Converted_to_lowercase ''EN''])"
    by (simp add: init_def l r n get_family_def en_site_def)
  have c: "code en_site = ''en''" "family en_site = wikipedia"
      "fam_name wikipedia = ''wikipedia''"
    by (simp_all add: en_site_def wikipedia_def)
  show ?thesis
    using init_case_insensitive
            [where env = example_env and c = "''EN''" and fam = "Fam_obj wikipedia"
               and user = None and f = wikipedia and d = "''en.wikipedia.org''"
               and s = en_site and env' = example_env
               and lg = "[Converted_to_lowercase ''EN'']"]
    by (simp add: get_family_def lower_examples w i c)
qed

text \<open>
  The stored code need not be lowercase: the replacement of an obsolete code and the family
  name are stored as the family gives them. The family \<open>MyWiki\<close> has the one language
  \<open>MyWiki\<close>, and the site for the code \<open>MyWiki\<close> has the code \<open>MyWiki\<close>. Nor do the two
  forms of a code outside ASCII agree: the uppercase of the sharp s is \<open>SS\<close>, which is
  lowercased to \<open>ss\<close>; in a family with the language sharp s the lowercased form gives a
  site and the uppercased form raises \<open>UnknownSite\<close>.
\<close>

theorem stored_code_not_lowercase_counterexample:
  "fam_langs MyWiki ''MyWiki'' = Some ''wiki.example.org'' \<and>
   map_sum id (\<lambda>r. cmpkey (fst r)) (init example_env ''MyWiki'' (Fam_obj MyWiki) None) =
     Inr (''MyWiki'', ''MyWiki'') \<and>
   lower ''MyWiki'' \<noteq> ''MyWiki'' \<and>
   fam_langs sz_family [CHR 0xDF] = Some ''sz.example.org'' \<and>
   upper [CHR 0xDF] = Some ''SS'' \<and>
   init example_env ''SS'' (Fam_obj sz_family) None = Inl (UnknownSite ''ss'' ''sz'') \<and>
   map_sum id (\<lambda>r. cmpkey (fst r))
     (init example_env (lower [CHR 0xDF]) (Fam_obj sz_family) None) = Inr (''sz'', [CHR 0xDF])"
proof -
  have "dom (fam_langs MyWiki) = {''MyWiki''}"
    by (auto simp: MyWiki_def)
  then have "card (dom (fam_langs MyWiki)) = 1"
    by simp
  then have "resolve_code example_env MyWiki (lower ''MyWiki'') =
      Inr (''MyWiki'', False, example_env, [])"
    by (simp add: resolve_code_def lower_examples) (simp add: MyWiki_def example_env_def)
  from init_resolved [of example_env "Fam_obj MyWiki" MyWiki "''MyWiki''", OF _ this, of None]
  have 1: "map_sum id (\<lambda>r. cmpkey (fst r)) (init example_env ''MyWiki'' (Fam_obj MyWiki) None) =
     Inr (''MyWiki'', ''MyWiki'')"
    by (auto simp: get_family_def cmpkey_def) (simp add: MyWiki_def)
  have 2: "fam_langs MyWiki ''MyWiki'' = Some ''wiki.example.org''"
      "fam_langs sz_family [CHR 0xDF] = Some ''sz.example.org''"
    by (simp_all add: MyWiki_def sz_family_def)
  have "resolve_code example_env sz_family (lower ''SS'') = Inl (UnknownSite ''ss'' ''sz'')"
    by (simp add: resolve_code_def lower_examples sz_family_def)
  from init_rejected [of example_env "Fam_obj sz_family" sz_family "''SS''", OF _ this, of None]
  have 3: "init example_env ''SS'' (Fam_obj sz_family) None = Inl (UnknownSite ''ss'' ''sz'')"
    by (simp add: get_family_def)
  have "resolve_code example_env sz_family (lower (lower [CHR 0xDF])) =
      Inr ([CHR 0xDF], False, example_env, [])"
    by (simp add: resolve_code_def lower_examples sz_family_def)
  from init_resolved [of example_env "Fam_obj sz_family" sz_family "lower [CHR 0xDF]",
      OF _ this, of None]
  have 4: "map_sum id (\<lambda>r. cmpkey (fst r))
     (init example_env (lower [CHR 0xDF]) (Fam_obj sz_family) None) = Inr (''sz'', [CHR 0xDF])"
    by (auto simp: get_family_def cmpkey_def) (simp add: sz_family_def)
  from 1 2 3 4 show ?thesis
    by (simp add: lower_examples)
qed


section \<open>Properties of pickling\<close>

text \<open>
  C1, as far as it holds: \<open>__getstate__\<close> of a site returns a state without \<open>_pagemutex\<close>,
  \<open>_throttle\<close> and \<open>_iw_sites\<close> in which \<open>_locked_pages\<close> is the locked set of the site, and
  \<open>__setstate__\<close> of that state leaves an instance with the same locked set and a new
  condition variable, which no thread owns and on which no thread waits.
\<close>

theorem getstate_setstate_locked_pages:
  "\<exists>attrs. getstate (inst_dict s) = Inr attrs \<and>
      attrs ''_pagemutex'' = None \<and> attrs ''_throttle'' = None \<and> attrs ''_iw_sites'' = None \<and>
      attrs ''_locked_pages'' = Some (Titles (locked_pages s)) \<and>
      setstate self_dict attrs ''_locked_pages'' = Some (Titles (locked_pages s)) \<and>
      setstate self_dict attrs ''_pagemutex'' = Some (Cond Condition)"
  by (simp add: getstate_def inst_dict_def setstate_def Let_def map_add_def split: option.splits)

text \<open>
  The locked set is not emptied: a site pickled while the page \<open>X\<close> is locked is restored
  with \<open>X\<close> locked.
\<close>

theorem restored_site_keeps_locks_counterexample:
  "map_sum id (\<lambda>d. d ''_locked_pages'') (dumps_loads busy_site) = Inr (Some (Titles {''X''}))"
  by (simp add: dumps_loads_def getstate_def inst_dict_def setstate_def Let_def busy_site_def
        en_site_def map_add_def)


section \<open>Properties of the page locks\<close>

text \<open>
  C3: \<open>lock_page\<close> with \<open>block=False\<close> raises \<open>PageInUse\<close> with the title without its section
  when that title is locked, and leaves the locked set as it was; when the title is not
  locked, it adds it to the locked set and returns. The two cases exclude each other, so
  the exception is raised exactly in the first.
\<close>

theorem lock_page_nonblocking:
  "(title page False \<in> locked_pages s \<longrightarrow>
      (\<exists>s'. lock_page title t s page False = Raised (PageInUse (title page False)) s' \<and>
            locked_pages s' = locked_pages s)) \<and>
   (title page False \<notin> locked_pages s \<longrightarrow>
      (\<exists>s'. lock_page title t s page False = Returned s' \<and>
            locked_pages s' = insert (title page False) (locked_pages s)))"
  by (simp add: lock_page_def Let_def)

theorem lock_page_nonblocking_witness:
  "example_title (''X'', ''History'') False \<in> locked_pages busy_site \<and>
   example_title (''Y'', ''History'') False \<notin> locked_pages busy_site \<and>
   (\<exists>s'. lock_page example_title 0 busy_site (''X'', ''History'') False =
            Raised (PageInUse ''X'') s' \<and> locked_pages s' = {''X''}) \<and>
   (\<exists>s'. lock_page example_title 0 busy_site (''Y'', ''History'') False = Returned s' \<and>
         locked_pages s' = {''Y'', ''X''})"
proof -
  have b: "locked_pages busy_site = {''X''}"
    by (simp add: busy_site_def)
  show ?thesis
    using lock_page_nonblocking [of example_title "(''X'', ''History'')" busy_site 0]
      lock_page_nonblocking [of example_title "(''Y'', ''History'')" busy_site 0]
    by (simp add: example_title_def b)
qed

text \<open>
  C4: \<open>unlock_page\<close> always returns; it removes the title without its section from the locked
  set, which leaves the set as it was when the title is not in it, and no thread is left
  waiting on the condition variable.
\<close>

theorem unlock_page_never_fails:
  "\<exists>s'. unlock_page title t s page = Returned s' \<and>
      locked_pages s' = locked_pages s - {title page False} \<and>
      (title page False \<notin> locked_pages s \<longrightarrow> locked_pages s' = locked_pages s) \<and>
      waiters (pagemutex s') = {}"
  by (simp add: unlock_page_def Let_def notify_all_def release_def acquire_def)

theorem unlock_page_never_fails_witness:
  "example_title (''Y'', ''History'') False \<notin> locked_pages busy_site \<and>
   waiters (pagemutex busy_site) = {1, 2} \<and>
   (\<exists>s'. unlock_page example_title 0 busy_site (''Y'', ''History'') = Returned s' \<and>
         locked_pages s' = {''X''} \<and> waiters (pagemutex s') = {})"
proof -
  have b: "locked_pages busy_site = {''X''}" "waiters (pagemutex busy_site) = {1, 2}"
    by (simp_all add: busy_site_def)
  show ?thesis
    using unlock_page_never_fails [of example_title 0 busy_site "(''Y'', ''History'')"]
    by (simp add: example_title_def b)
qed


subsection \<open>The methods, statement by statement\<close>

text \<open>A thread that runs alone from the call to the end of the \<open>with\<close> block, or to the
  \<open>wait()\<close>, leaves the site as the method does.\<close>

lemma run_unlock_page:
  assumes "pc \<sigma> t = Idle" and "owner (pagemutex (site \<sigma>)) = None"
  shows "site (exec title [Call_unlock t page, Step t, Step t, Step t, Step t] \<sigma>) =
    state_of (unlock_page title t (site \<sigma>) page)"
proof -
  define \<sigma>1 where "\<sigma>1 = exec1 title (Call_unlock t page) \<sigma>"
  define \<sigma>2 where "\<sigma>2 = step t \<sigma>1"
  define \<sigma>3 where "\<sigma>3 = step t \<sigma>2"
  define \<sigma>4 where "\<sigma>4 = step t \<sigma>3"
  define \<sigma>5 where "\<sigma>5 = step t \<sigma>4"
  have 1: "pc \<sigma>1 t = U_with (title page False)" "site \<sigma>1 = site \<sigma>"
    using assms by (simp_all add: \<sigma>1_def exec1_def)
  have 2: "pc \<sigma>2 t = U_discard (title page False)"
      "site \<sigma>2 = (site \<sigma>)\<lparr>pagemutex := acquire t (pagemutex (site \<sigma>))\<rparr>"
    using 1 assms by (simp_all add: \<sigma>2_def step_def Let_def)
  have 3: "pc \<sigma>3 t = U_notify"
      "site \<sigma>3 = (site \<sigma>2)\<lparr>locked_pages := locked_pages (site \<sigma>2) - {title page False}\<rparr>"
    using 2 by (simp_all add: \<sigma>3_def step_def Let_def)
  have 4: "pc \<sigma>4 t = U_exit"
      "site \<sigma>4 = (site \<sigma>3)\<lparr>pagemutex := notify_all (pagemutex (site \<sigma>3))\<rparr>"
    using 3 by (simp_all add: \<sigma>4_def step_def Let_def)
  have 5: "site \<sigma>5 = (site \<sigma>4)\<lparr>pagemutex := release (pagemutex (site \<sigma>4))\<rparr>"
    using 4 by (simp_all add: \<sigma>5_def step_def Let_def)
  have "exec title [Call_unlock t page, Step t, Step t, Step t, Step t] \<sigma> = \<sigma>5"
    by (simp add: \<sigma>5_def \<sigma>4_def \<sigma>3_def \<sigma>2_def \<sigma>1_def exec1_def)
  then show ?thesis
    using 2 3 4 5 by (simp add: unlock_page_def state_of_def Let_def)
qed

lemma run_lock_page:
  assumes "pc \<sigma> t = Idle" and "owner (pagemutex (site \<sigma>)) = None"
  shows "site (exec title [Call_lock t page block, Step t, Step t, Step t, Step t] \<sigma>) =
    state_of (lock_page title t (site \<sigma>) page block)"
proof -
  define ti where "ti = title page False"
  define s1 where "s1 = (site \<sigma>)\<lparr>pagemutex := acquire t (pagemutex (site \<sigma>))\<rparr>"
  define \<sigma>1 where "\<sigma>1 = exec1 title (Call_lock t page block) \<sigma>"
  define \<sigma>2 where "\<sigma>2 = step t \<sigma>1"
  define \<sigma>3 where "\<sigma>3 = step t \<sigma>2"
  define \<sigma>4 where "\<sigma>4 = step t \<sigma>3"
  define \<sigma>5 where "\<sigma>5 = step t \<sigma>4"
  have e: "exec title [Call_lock t page block, Step t, Step t, Step t, Step t] \<sigma> = \<sigma>5"
    by (simp add: \<sigma>5_def \<sigma>4_def \<sigma>3_def \<sigma>2_def \<sigma>1_def exec1_def)
  have 1: "pc \<sigma>1 t = L_with ti block" "site \<sigma>1 = site \<sigma>"
    using assms by (simp_all add: \<sigma>1_def exec1_def ti_def)
  have 2: "pc \<sigma>2 t = L_while ti block" "site \<sigma>2 = s1"
    using 1 assms by (simp_all add: \<sigma>2_def step_def Let_def s1_def)
  show ?thesis
  proof (cases "ti \<in> locked_pages (site \<sigma>)")
    case False
    then have 3: "pc \<sigma>3 t = L_add ti" "site \<sigma>3 = s1"
      using 2 by (simp_all add: \<sigma>3_def step_def Let_def s1_def)
    have 4: "pc \<sigma>4 t = L_exit" "site \<sigma>4 = s1\<lparr>locked_pages := insert ti (locked_pages s1)\<rparr>"
      using 3 by (simp_all add: \<sigma>4_def step_def Let_def)
    have 5: "site \<sigma>5 = (site \<sigma>4)\<lparr>pagemutex := release (pagemutex (site \<sigma>4))\<rparr>"
      using 4 by (simp_all add: \<sigma>5_def step_def Let_def)
    from False 4 5 e show ?thesis
      by (simp add: lock_page_def state_of_def Let_def s1_def ti_def)
  next
    case True
    show ?thesis
    proof (cases block)
      case True
      with \<open>ti \<in> locked_pages (site \<sigma>)\<close> have 3: "pc \<sigma>3 t = L_wait ti block" "site \<sigma>3 = s1"
        using 2 by (simp_all add: \<sigma>3_def step_def Let_def s1_def)
      have 4: "pc \<sigma>4 t = L_sleep ti block" "site \<sigma>4 = s1\<lparr>pagemutex := wait t (pagemutex s1)\<rparr>"
        using 3 by (simp_all add: \<sigma>4_def step_def Let_def)
      have 5: "site \<sigma>5 = site \<sigma>4"
        using 4 by (simp add: \<sigma>5_def step_def Let_def wait_def)
      from True \<open>ti \<in> locked_pages (site \<sigma>)\<close> 4 5 e show ?thesis
        by (simp add: lock_page_def state_of_def Let_def s1_def ti_def)
    next
      case False
      with \<open>ti \<in> locked_pages (site \<sigma>)\<close> have 3: "pc \<sigma>3 t = L_raise ti" "site \<sigma>3 = s1"
        using 2 by (simp_all add: \<sigma>3_def step_def Let_def s1_def)
      have 4: "pc \<sigma>4 t = Idle" "site \<sigma>4 = s1\<lparr>pagemutex := release (pagemutex s1)\<rparr>"
        using 3 by (simp_all add: \<sigma>4_def step_def Let_def)
      have 5: "site \<sigma>5 = site \<sigma>4"
        using 4 by (simp add: \<sigma>5_def step_def)
      from False \<open>ti \<in> locked_pages (site \<sigma>)\<close> 4 5 e show ?thesis
        by (simp add: lock_page_def state_of_def Let_def s1_def ti_def)
    qed
  qed
qed

subsection \<open>Runs of several threads\<close>

lemma mutex_inv_other:
  "mutex_inv \<sigma> \<Longrightarrow> in_cs (pc \<sigma> t) \<Longrightarrow> t' \<noteq> t \<Longrightarrow> \<not> in_cs (pc \<sigma> t')"
  by (metis mutex_inv_def option.inject)

lemma mutex_inv_step:
  assumes "mutex_inv \<sigma>" shows "mutex_inv (step t \<sigma>)"
proof (cases "pc \<sigma> t")
  case Idle
  with assms show ?thesis by (simp add: step_def)
next
  case (L_with ti b)
  with assms show ?thesis
    by (auto simp: step_def Let_def mutex_inv_def acquire_def)
next
  case (L_while ti b)
  with assms show ?thesis
    by (auto simp: step_def Let_def mutex_inv_def)
next
  case (L_raise ti)
  then have "in_cs (pc \<sigma> t)" by simp
  with assms have "\<And>t'. t' \<noteq> t \<Longrightarrow> \<not> in_cs (pc \<sigma> t')"
    by (rule mutex_inv_other)
  with L_raise show ?thesis
    by (simp add: step_def Let_def mutex_inv_def release_def)
next
  case (L_wait ti b)
  then have "in_cs (pc \<sigma> t)" by simp
  with assms have "\<And>t'. t' \<noteq> t \<Longrightarrow> \<not> in_cs (pc \<sigma> t')"
    by (rule mutex_inv_other)
  with L_wait show ?thesis
    by (simp add: step_def Let_def mutex_inv_def wait_def)
next
  case (L_sleep ti b)
  with assms show ?thesis
    by (auto simp: step_def Let_def mutex_inv_def acquire_def)
next
  case (L_add ti)
  with assms show ?thesis
    by (auto simp: step_def Let_def mutex_inv_def)
next
  case L_exit
  then have "in_cs (pc \<sigma> t)" by simp
  with assms have "\<And>t'. t' \<noteq> t \<Longrightarrow> \<not> in_cs (pc \<sigma> t')"
    by (rule mutex_inv_other)
  with L_exit show ?thesis
    by (simp add: step_def Let_def mutex_inv_def release_def)
next
  case (U_with ti)
  with assms show ?thesis
    by (auto simp: step_def Let_def mutex_inv_def acquire_def)
next
  case (U_discard ti)
  with assms show ?thesis
    by (auto simp: step_def Let_def mutex_inv_def)
next
  case U_notify
  with assms show ?thesis
    by (auto simp: step_def Let_def mutex_inv_def notify_all_def)
next
  case U_exit
  then have "in_cs (pc \<sigma> t)" by simp
  with assms have "\<And>t'. t' \<noteq> t \<Longrightarrow> \<not> in_cs (pc \<sigma> t')"
    by (rule mutex_inv_other)
  with U_exit show ?thesis
    by (simp add: step_def Let_def mutex_inv_def release_def)
qed

lemma add_inv_step:
  assumes m: "mutex_inv \<sigma>" and a: "add_inv \<sigma>" shows "add_inv (step t \<sigma>)"
proof (cases "pc \<sigma> t")
  case Idle
  with a show ?thesis by (simp add: step_def)
next
  case (L_with ti b)
  with a show ?thesis by (simp add: step_def Let_def add_inv_def)
next
  case (L_while ti b)
  with a show ?thesis by (simp add: step_def Let_def add_inv_def)
next
  case (L_raise ti)
  with a show ?thesis by (simp add: step_def Let_def add_inv_def)
next
  case (L_wait ti b)
  with a show ?thesis by (simp add: step_def Let_def add_inv_def)
next
  case (L_sleep ti b)
  with a show ?thesis by (simp add: step_def Let_def add_inv_def)
next
  case (L_add ti)
  then have "in_cs (pc \<sigma> t)" by simp
  with m have "\<And>t'. t' \<noteq> t \<Longrightarrow> \<not> in_cs (pc \<sigma> t')"
    by (rule mutex_inv_other)
  then have "\<And>t' ti'. t' \<noteq> t \<Longrightarrow> pc \<sigma> t' \<noteq> L_add ti'"
    by (metis in_cs.simps(8))
  with L_add show ?thesis by (simp add: step_def Let_def add_inv_def)
next
  case L_exit
  with a show ?thesis by (simp add: step_def Let_def add_inv_def)
next
  case (U_with ti)
  with a show ?thesis by (simp add: step_def Let_def add_inv_def)
next
  case (U_discard ti)
  with a show ?thesis by (simp add: step_def Let_def add_inv_def)
next
  case U_notify
  with a show ?thesis by (simp add: step_def Let_def add_inv_def)
next
  case U_exit
  with a show ?thesis by (simp add: step_def Let_def add_inv_def)
qed

lemma holds_inv_step:
  assumes a: "add_inv \<sigma>" and h: "holds_inv \<sigma>"
    and d: "\<not> foreign_unlock \<sigma> (Step t :: 'p event)"
  shows "holds_inv (step t \<sigma>)"
proof (cases "pc \<sigma> t")
  case Idle
  with h show ?thesis by (simp add: step_def)
next
  case (L_with ti b)
  with h show ?thesis by (simp add: step_def Let_def holds_inv_def)
next
  case (L_while ti b)
  with h show ?thesis by (simp add: step_def Let_def holds_inv_def)
next
  case (L_raise ti)
  with h show ?thesis by (simp add: step_def Let_def holds_inv_def)
next
  case (L_wait ti b)
  with h show ?thesis by (simp add: step_def Let_def holds_inv_def)
next
  case (L_sleep ti b)
  with h show ?thesis by (simp add: step_def Let_def holds_inv_def)
next
  case (L_add ti)
  with a have "ti \<notin> locked_pages (site \<sigma>)" by (simp add: add_inv_def)
  with h have "ti \<notin> snd ` holds \<sigma>" by (simp add: holds_inv_def)
  then have "ti \<notin> snd ` (holds \<sigma> - {(t, ti)})" by blast
  with h L_add show ?thesis by (simp add: step_def Let_def holds_inv_def)
next
  case L_exit
  with h show ?thesis by (simp add: step_def Let_def holds_inv_def)
next
  case (U_with ti)
  with h show ?thesis by (simp add: step_def Let_def holds_inv_def)
next
  case (U_discard ti)
  with d have n: "ti \<notin> snd ` (holds \<sigma> - {(t, ti)})" by (simp add: foreign_unlock_def)
  have "snd ` (holds \<sigma> - {(t, ti)}) = snd ` holds \<sigma> - {ti}"
  proof
    show "snd ` (holds \<sigma> - {(t, ti)}) \<subseteq> snd ` holds \<sigma> - {ti}" using n by blast
    show "snd ` holds \<sigma> - {ti} \<subseteq> snd ` (holds \<sigma> - {(t, ti)})" by force
  qed
  moreover from h have "inj_on snd (holds \<sigma> - {(t, ti)})"
    by (simp add: holds_inv_def inj_on_diff)
  ultimately show ?thesis using h U_discard by (simp add: step_def Let_def holds_inv_def)
next
  case U_notify
  with h show ?thesis by (simp add: step_def Let_def holds_inv_def)
next
  case U_exit
  with h show ?thesis by (simp add: step_def Let_def holds_inv_def)
qed

lemma lock_inv_start: "locked_pages s = {} \<Longrightarrow> lock_inv (start s)"
  by (simp add: lock_inv_def mutex_inv_def add_inv_def holds_inv_def start_def)

lemma lock_inv_exec1:
  assumes "lock_inv \<sigma>" and "\<not> foreign_unlock \<sigma> e"
  shows "lock_inv (exec1 title e \<sigma>)"
proof (cases e)
  case (Call_lock t p b)
  from assms(1) have "mutex_inv (exec1 title (Call_lock t p b) \<sigma>)"
    by (auto simp: exec1_def lock_inv_def mutex_inv_def)
  moreover from assms(1) have "add_inv (exec1 title (Call_lock t p b) \<sigma>)"
    by (auto simp: exec1_def lock_inv_def add_inv_def)
  moreover from assms(1) have "holds_inv (exec1 title (Call_lock t p b) \<sigma>)"
    by (auto simp: exec1_def lock_inv_def holds_inv_def)
  ultimately show ?thesis using Call_lock by (simp add: lock_inv_def)
next
  case (Call_unlock t p)
  from assms(1) have "mutex_inv (exec1 title (Call_unlock t p) \<sigma>)"
    by (auto simp: exec1_def lock_inv_def mutex_inv_def)
  moreover from assms(1) have "add_inv (exec1 title (Call_unlock t p) \<sigma>)"
    by (auto simp: exec1_def lock_inv_def add_inv_def)
  moreover from assms(1) have "holds_inv (exec1 title (Call_unlock t p) \<sigma>)"
    by (auto simp: exec1_def lock_inv_def holds_inv_def)
  ultimately show ?thesis using Call_unlock by (simp add: lock_inv_def)
next
  case (Step t)
  with assms show ?thesis
    by (simp add: exec1_def lock_inv_def mutex_inv_step add_inv_step holds_inv_step)
qed

lemma lock_inv_exec:
  "lock_inv \<sigma> \<Longrightarrow> own_unlocks title \<sigma> es \<Longrightarrow> lock_inv (exec title es \<sigma>)"
proof (induction es arbitrary: \<sigma>)
  case Nil
  then show ?case by simp
next
  case (Cons e es)
  then show ?case by (simp add: lock_inv_exec1 split: if_splits)
qed

lemma own_unlocks_take: "own_unlocks title \<sigma> es \<Longrightarrow> own_unlocks title \<sigma> (take n es)"
proof (induction es arbitrary: \<sigma> n)
  case Nil
  then show ?case by simp
next
  case (Cons e es)
  then show ?case by (cases n) (simp_all split: if_splits)
qed

lemmas run_simps =
  start_def en_site_def exec1_def step_def Let_def example_title_def Condition_def
  acquire_def release_def notify_all_def wait_def foreign_unlock_def

text \<open>The initializer leaves a site with no page locked.\<close>

lemma init_locked_pages:
  assumes "init env c fam user = Inr (s, env', lg)"
  shows "locked_pages s = {}"
  using assms init_cases [of env c fam user] by auto

text \<open>
  C2, for a site on which no page is locked when the run starts, as the initializer leaves
  it, and for the runs in which no caller discards a title that another caller holds:
  after every prefix of the run the locked titles are the titles held, and no title is
  held by two callers (\<open>snd\<close> is injective on the pairs of a caller and a title it holds).
\<close>

theorem one_holder_per_title:
  assumes "locked_pages s = {}" and "own_unlocks title (start s) es"
  shows "locked_pages (site (exec title (take n es) (start s))) =
           snd ` holds (exec title (take n es) (start s)) \<and>
         inj_on snd (holds (exec title (take n es) (start s)))"
proof -
  have "lock_inv (exec title (take n es) (start s))"
    using assms by (simp add: lock_inv_exec lock_inv_start own_unlocks_take)
  then show ?thesis by (simp add: lock_inv_def holds_inv_def)
qed

theorem one_holder_per_title_witness:
  "locked_pages en_site = {} \<and>
   own_unlocks example_title (start en_site) handover_run \<and>
   holds (exec example_title (take 10 handover_run) (start en_site)) = {(0, ''X'')} \<and>
   holds (exec example_title (take 19 handover_run) (start en_site)) = {(1, ''X'')} \<and>
   locked_pages (site (exec example_title (take 19 handover_run) (start en_site))) =
     snd ` holds (exec example_title (take 19 handover_run) (start en_site)) \<and>
   inj_on snd (holds (exec example_title (take 19 handover_run) (start en_site)))"
proof -
  have 1: "locked_pages en_site = {}"
    by (simp add: en_site_def)
  have 2: "own_unlocks example_title (start en_site) handover_run"
    by (simp add: handover_run_def run_simps)
  have 3: "holds (exec example_title (take 10 handover_run) (start en_site)) = {(0, ''X'')}"
    by (simp add: handover_run_def run_simps)
  have 4: "holds (exec example_title (take 19 handover_run) (start en_site)) = {(1, ''X'')}"
    by (simp add: handover_run_def run_simps)
  from one_holder_per_title [OF 1 2, of 19] 1 2 3 4 show ?thesis
    by blast
qed

text \<open>
  \<open>unlock_page\<close> does not ask who holds the title. When thread 1 unlocks the page that thread
  0 holds, the page is held and not locked; thread 2 then locks it, and two callers hold it.
\<close>

theorem two_holders_counterexample:
  "locked_pages (site (exec example_title (take 10 foreign_run) (start en_site))) = {} \<and>
   (0, ''X'') \<in> holds (exec example_title (take 10 foreign_run) (start en_site)) \<and>
   (0, ''X'') \<in> holds (exec example_title foreign_run (start en_site)) \<and>
   (2, ''X'') \<in> holds (exec example_title foreign_run (start en_site))"
  by (simp add: foreign_run_def run_simps)

end
